theory Spec2Isabelle
  imports Complex_Main "HOL-Library.Word" "HOL-Library.Char_ord" "HOL-Library.List_Lexorder"
    "HOL-Library.Multiset"
begin

section \<open>Data model\<close>

text \<open>
  The script \<^verbatim>\<open>main_script.py\<close> has two functions: \<^verbatim>\<open>mosaic_year_tiles\<close> (the tile
  mosaicker) and \<^verbatim>\<open>main\<close> (the change accumulator and renderer). Exceptions are values
  of \<open>py_error\<close>; a function that can raise returns \<open>py_error + 'a\<close>.
\<close>

datatype py_error =
    FileNotFoundError string
  | IndexError
  | ValueError
  | KeyError
  | TypeError
  | LibraryError string

text \<open>
  A two-dimensional numpy array: its shape and its cells. Only the cells \<open>cell a i j\<close> with
  \<open>i < nrows a\<close> and \<open>j < ncols a\<close> belong to the array.
\<close>

record 'a ndarray =
  nrows :: nat
  ncols :: nat
  cell :: "nat \<Rightarrow> nat \<Rightarrow> 'a"

type_synonym pixel = "8 word \<times> 8 word \<times> 8 word \<times> 8 word"

text \<open>
  The collaborators of the script that it calls and does not define: the directory
  listing and the directory test of \<^verbatim>\<open>os\<close>, the expansion of a directory pattern inside
  \<^verbatim>\<open>glob.glob\<close>, \<^verbatim>\<open>rasterio.open\<close> and \<^verbatim>\<open>rasterio.merge.merge\<close>. Paths are strings, as in
  the script; \<^verbatim>\<open>merge\<close> returns the bands of the mosaic and its transform.
\<close>

record ('ds, 'v, 'tr) env =
  os_listdir :: "string \<Rightarrow> py_error + string list"
  os_path_isdir :: "string \<Rightarrow> bool"
  iglob_dirs :: "string \<Rightarrow> string list"
  rasterio_open :: "string \<Rightarrow> py_error + 'ds"
  merge :: "'ds list \<Rightarrow> py_error + ('v ndarray list \<times> 'tr)"

text \<open>The variables of the loop of \<^verbatim>\<open>main\<close> that live across iterations (\<open>None\<close> as in Python).\<close>

record loop_state =
  cumulative_losses :: "bool ndarray option"
  cumulative_gains :: "bool ndarray option"
  previous_arr :: "int ndarray option"

text \<open>
  What one iteration saves: the image keyed by the year, and the two area totals of the
  overlay text. The areas are kept as the exact products; Python holds them as binary64
  numbers and prints them with \<^verbatim>\<open>:.2f\<close>, which is not modelled.
\<close>

record frame =
  year :: string
  rgba :: "pixel ndarray"
  total_gains_area :: real
  total_losses_area :: real

section \<open>numpy operations used by the script\<close>

definition shape :: "'a ndarray \<Rightarrow> nat \<times> nat" where
  "shape a = (nrows a, ncols a)"

definition of_rows :: "'a list list \<Rightarrow> 'a ndarray" where
  "of_rows rs = \<lparr>nrows = length rs, ncols = (case rs of [] \<Rightarrow> 0 | r # _ \<Rightarrow> length r),
                 cell = (\<lambda>i j. rs ! i ! j)\<rparr>"

definition map_array :: "('a \<Rightarrow> 'b) \<Rightarrow> 'a ndarray \<Rightarrow> 'b ndarray" where
  "map_array f a = \<lparr>nrows = nrows a, ncols = ncols a, cell = (\<lambda>i j. f (cell a i j))\<rparr>"

text \<open>\<^verbatim>\<open>a > c\<close> and \<^verbatim>\<open>a == c\<close> with a scalar \<open>c\<close>, and \<^verbatim>\<open>np.where(m, x, y)\<close> with scalars.\<close>

definition gt_scalar :: "('a::{ord}) ndarray \<Rightarrow> 'a \<Rightarrow> bool ndarray" where
  "gt_scalar a c = map_array (\<lambda>x. c < x) a"

definition eq_scalar :: "'a ndarray \<Rightarrow> 'a \<Rightarrow> bool ndarray" where
  "eq_scalar a c = map_array (\<lambda>x. x = c) a"

definition np_where :: "bool ndarray \<Rightarrow> 'a \<Rightarrow> 'a \<Rightarrow> 'a ndarray" where
  "np_where m x y = map_array (\<lambda>b. if b then x else y) m"

text \<open>
  Broadcasting of one dimension: equal sizes, or one of them is 1. \<^verbatim>\<open>a & b\<close> raises
  ValueError when a dimension cannot be broadcast.
\<close>

definition broadcast_dim :: "nat \<Rightarrow> nat \<Rightarrow> nat option" where
  "broadcast_dim m n =
     (if m = n then Some m else if m = 1 then Some n else if n = 1 then Some m else None)"

definition bcell :: "'a ndarray \<Rightarrow> nat \<Rightarrow> nat \<Rightarrow> 'a" where
  "bcell a i j = cell a (if nrows a = 1 then 0 else i) (if ncols a = 1 then 0 else j)"

definition np_and :: "bool ndarray \<Rightarrow> bool ndarray \<Rightarrow> py_error + bool ndarray" where
  "np_and a b =
     (case broadcast_dim (nrows a) (nrows b) of
        None \<Rightarrow> Inl ValueError
      | Some h \<Rightarrow>
         (case broadcast_dim (ncols a) (ncols b) of
            None \<Rightarrow> Inl ValueError
          | Some w \<Rightarrow> Inr \<lparr>nrows = h, ncols = w, cell = (\<lambda>i j. bcell a i j \<and> bcell b i j)\<rparr>))"

definition np_zeros_like :: "'a ndarray \<Rightarrow> bool ndarray" where
  "np_zeros_like a = \<lparr>nrows = nrows a, ncols = ncols a, cell = (\<lambda>i j. False)\<rparr>"

definition transparent :: pixel where
  "transparent = (0, 0, 0, 0)"

definition np_zeros :: "nat \<Rightarrow> nat \<Rightarrow> pixel ndarray" where
  "np_zeros h w = \<lparr>nrows = h, ncols = w, cell = (\<lambda>i j. transparent)\<rparr>"

text \<open>
  \<^verbatim>\<open>arr[index] = v\<close>. A boolean index must have the shape of the array (IndexError
  otherwise) and selects the cells where it is true; the index \<^verbatim>\<open>None\<close> is numpy's
  \<^verbatim>\<open>newaxis\<close> and selects every cell.
\<close>

definition index_assign :: "'a ndarray \<Rightarrow> bool ndarray option \<Rightarrow> 'a \<Rightarrow> py_error + 'a ndarray" where
  "index_assign arr index v =
     (case index of
        None \<Rightarrow> Inr \<lparr>nrows = nrows arr, ncols = ncols arr, cell = (\<lambda>i j. v)\<rparr>
      | Some m \<Rightarrow>
         (if shape m = shape arr
          then Inr \<lparr>nrows = nrows arr, ncols = ncols arr,
                    cell = (\<lambda>i j. if cell m i j then v else cell arr i j)\<rparr>
          else Inl IndexError))"

text \<open>\<^verbatim>\<open>np.sum\<close> of a boolean array: the number of true cells.\<close>

definition np_sum :: "bool ndarray \<Rightarrow> nat" where
  "np_sum m = length (filter (\<lambda>(i, j). cell m i j) (List.product [0..<nrows m] [0..<ncols m]))"

section \<open>Paths and \<^verbatim>\<open>glob\<close> (POSIX Python)\<close>

definition sep :: char where
  "sep = CHR ''/''"

definition os_path_join :: "string \<Rightarrow> string \<Rightarrow> string" where
  "os_path_join a b =
     (if b \<noteq> [] \<and> hd b = sep then b
      else if a = [] \<or> last a = sep then a @ b
      else a @ [sep] @ b)"

definition rstrip_sep :: "string \<Rightarrow> string" where
  "rstrip_sep p = rev (dropWhile (\<lambda>c. c = sep) (rev p))"

definition posix_split :: "string \<Rightarrow> string \<times> string" where
  "posix_split p =
     (let tail = rev (takeWhile (\<lambda>c. c \<noteq> sep) (rev p));
          head = take (length p - length tail) p
      in (if head \<noteq> [] \<and> \<not> list_all (\<lambda>c. c = sep) head then rstrip_sep head else head, tail))"

definition has_magic :: "string \<Rightarrow> bool" where
  "has_magic s = list_ex (\<lambda>c. c = CHR ''*'' \<or> c = CHR ''?'' \<or> c = CHR ''['') s"

definition ishidden :: "string \<Rightarrow> bool" where
  "ishidden n = (case n of [] \<Rightarrow> False | c # _ \<Rightarrow> c = CHR ''.'')"

definition endswith :: "string \<Rightarrow> string \<Rightarrow> bool" where
  "endswith s suf = (length suf \<le> length s \<and> drop (length s - length suf) s = suf)"

text \<open>
  \<^verbatim>\<open>_glob1(dirname, "*.tif")\<close>: the names in the directory (none when it cannot be
  listed) that do not start with a dot and match the pattern; on POSIX the match is
  case-sensitive, and \<^verbatim>\<open>*.tif\<close> matches the names that end with \<^verbatim>\<open>.tif\<close>.
\<close>

definition listed_names :: "('ds, 'v, 'tr) env \<Rightarrow> string \<Rightarrow> string list" where
  "listed_names env dirname =
     (case os_listdir env (if dirname = [] then ''.'' else dirname) of
        Inl e \<Rightarrow> []
      | Inr names \<Rightarrow> names)"

definition tif_name :: "string \<Rightarrow> bool" where
  "tif_name n = (\<not> ishidden n \<and> endswith n ''.tif'')"

definition glob1_tif :: "('ds, 'v, 'tr) env \<Rightarrow> string \<Rightarrow> string list" where
  "glob1_tif env dirname = filter tif_name (listed_names env dirname)"

text \<open>
  \<^verbatim>\<open>glob.glob(pathname)\<close> for a pathname whose last component is \<^verbatim>\<open>*.tif\<close>, following
  \<^verbatim>\<open>_iglob\<close> of the Python library: the pathname is split into \<^verbatim>\<open>dirname\<close> and
  \<^verbatim>\<open>basename\<close>; an empty \<^verbatim>\<open>dirname\<close> gives the bare names of the current directory;
  otherwise the directories searched are \<^verbatim>\<open>[dirname]\<close>, unless \<^verbatim>\<open>has_magic(dirname)\<close>:
  then the directory part is a pattern too, and they are the directories that
  \<^verbatim>\<open>_iglob(dirname, dironly=True)\<close> yields (\<open>iglob_dirs\<close>, every directory whose path
  matches the pattern). The script does not escape the year path.
\<close>

definition glob_tif :: "('ds, 'v, 'tr) env \<Rightarrow> string \<Rightarrow> string list" where
  "glob_tif env pathname =
     (let dirname = fst (posix_split pathname) in
      if dirname = [] then glob1_tif env dirname
      else concat (map (\<lambda>d. map (os_path_join d) (glob1_tif env d))
                       (if dirname \<noteq> pathname \<and> has_magic dirname
                        then iglob_dirs env dirname else [dirname])))"

text \<open>The directory that \<^verbatim>\<open>glob\<close> lists for a year path without metacharacters.\<close>

definition year_dir :: "string \<Rightarrow> string" where
  "year_dir year_path = fst (posix_split (os_path_join year_path ''*.tif''))"

section \<open>The tile mosaicker\<close>

fun open_all :: "('ds, 'v, 'tr) env \<Rightarrow> string list \<Rightarrow> py_error + 'ds list" where
  "open_all env [] = Inr []"
| "open_all env (tif # tifs) =
     (case rasterio_open env tif of
        Inl e \<Rightarrow> Inl e
      | Inr src \<Rightarrow> (case open_all env tifs of Inl e \<Rightarrow> Inl e | Inr srcs \<Rightarrow> Inr (src # srcs)))"

definition mosaic_year_tiles ::
  "('ds, 'v::{zero,ord}, 'tr) env \<Rightarrow> string \<Rightarrow> py_error + (int ndarray \<times> 'tr)" where
  "mosaic_year_tiles env year_path =
     (let tif_files = glob_tif env (os_path_join year_path ''*.tif'') in
      if tif_files = [] then Inl (FileNotFoundError (''No .tif files found in '' @ year_path))
      else
       (case open_all env tif_files of
          Inl e \<Rightarrow> Inl e
        | Inr srcs \<Rightarrow>
           (case merge env srcs of
              Inl e \<Rightarrow> Inl e
            | Inr (mosaic_arr, mosaic_transform) \<Rightarrow>
               (case mosaic_arr of
                  [] \<Rightarrow> Inl IndexError
                | band # _ \<Rightarrow> Inr (np_where (gt_scalar band 0) 1 0, mosaic_transform)))))"

section \<open>The change accumulator and renderer\<close>

definition pixel_area_km2 :: real where
  "pixel_area_km2 = 0.000350"

definition yellow :: pixel where
  "yellow = (255, 255, 0, 255)"

definition red :: pixel where
  "red = (255, 0, 0, 255)"

definition init_state :: loop_state where
  "init_state = \<lparr>cumulative_losses = None, cumulative_gains = None, previous_arr = None\<rparr>"

text \<open>Lines 64-65: the masks of one transition.\<close>

definition transition_masks ::
  "int ndarray \<Rightarrow> int ndarray \<Rightarrow> py_error + (bool ndarray \<times> bool ndarray)" where
  "transition_masks prev cur =
     (case np_and (eq_scalar prev 0) (eq_scalar cur 1) of
        Inl e \<Rightarrow> Inl e
      | Inr gains \<Rightarrow>
         (case np_and (eq_scalar prev 1) (eq_scalar cur 0) of
            Inl e \<Rightarrow> Inl e
          | Inr losses \<Rightarrow> Inr (gains, losses)))"

text \<open>Lines 54-57: the masks are created at the first year.\<close>

definition init_cumulative :: "loop_state \<Rightarrow> int ndarray \<Rightarrow> loop_state" where
  "init_cumulative s current_arr =
     (if cumulative_losses s = None
      then s\<lparr>cumulative_losses := Some (np_zeros_like current_arr),
             cumulative_gains := Some (np_zeros_like current_arr)\<rparr>
      else s)"

text \<open>Lines 60-69: with a previous year, the masks of the transition are added to the cumulative masks.\<close>

definition update_cumulative :: "loop_state \<Rightarrow> int ndarray \<Rightarrow> py_error + loop_state" where
  "update_cumulative s current_arr =
     (case previous_arr s of
        None \<Rightarrow> Inr s
      | Some prev \<Rightarrow>
         (case transition_masks prev current_arr of
            Inl e \<Rightarrow> Inl e
          | Inr (gains, losses) \<Rightarrow>
             (case cumulative_gains s of
                None \<Rightarrow> Inl TypeError
              | Some cg \<Rightarrow>
                 (case index_assign cg (Some gains) True of
                    Inl e \<Rightarrow> Inl e
                  | Inr cg' \<Rightarrow>
                     (case cumulative_losses s of
                        None \<Rightarrow> Inl TypeError
                      | Some cl \<Rightarrow>
                         (case index_assign cl (Some losses) True of
                            Inl e \<Rightarrow> Inl e
                          | Inr cl' \<Rightarrow>
                             Inr (s\<lparr>cumulative_gains := Some cg',
                                    cumulative_losses := Some cl'\<rparr>)))))))"

text \<open>Lines 71-85 and 102-106: the image and the area totals of one year.\<close>

definition render_frame :: "loop_state \<Rightarrow> int ndarray \<Rightarrow> string \<Rightarrow> py_error + frame" where
  "render_frame s current_arr y =
     (case index_assign (np_zeros (nrows current_arr) (ncols current_arr)) (cumulative_gains s) yellow of
        Inl e \<Rightarrow> Inl e
      | Inr rgba1 \<Rightarrow>
         (case index_assign rgba1 (cumulative_losses s) red of
            Inl e \<Rightarrow> Inl e
          | Inr rgba2 \<Rightarrow>
             (case (cumulative_gains s, cumulative_losses s) of
                (Some cg, Some cl) \<Rightarrow>
                  Inr \<lparr>year = y, rgba = rgba2,
                       total_gains_area = real (np_sum cg) * pixel_area_km2,
                       total_losses_area = real (np_sum cl) * pixel_area_km2\<rparr>
              | _ \<Rightarrow> Inl TypeError)))"

text \<open>The body of the loop at line 51, for the year \<open>y\<close>.\<close>

definition loop_body ::
  "(string \<rightharpoonup> int ndarray) \<Rightarrow> loop_state \<Rightarrow> string \<Rightarrow> py_error + (loop_state \<times> frame)" where
  "loop_body year_arrays s y =
     (case year_arrays y of
        None \<Rightarrow> Inl KeyError
      | Some current_arr \<Rightarrow>
         (case update_cumulative (init_cumulative s current_arr) current_arr of
            Inl e \<Rightarrow> Inl e
          | Inr s' \<Rightarrow>
             (case render_frame s' current_arr y of
                Inl e \<Rightarrow> Inl e
              | Inr f \<Rightarrow> Inr (s'\<lparr>previous_arr := Some current_arr\<rparr>, f))))"

text \<open>
  The loop at line 51. Its value is the state at the end of each completed iteration
  with the frame saved there, and the exception that ended the run, if any: the frames
  of the years before a failing year stay on disk.
\<close>

fun year_loop ::
  "(string \<rightharpoonup> int ndarray) \<Rightarrow> loop_state \<Rightarrow> string list \<Rightarrow>
     (loop_state \<times> frame) list \<times> py_error option" where
  "year_loop year_arrays s [] = ([], None)"
| "year_loop year_arrays s (y # ys) =
     (case loop_body year_arrays s y of
        Inl e \<Rightarrow> ([], Some e)
      | Inr (s', f) \<Rightarrow>
         (case year_loop year_arrays s' ys of (tr, r) \<Rightarrow> ((s', f) # tr, r)))"

text \<open>Line 35: the years.\<close>

definition list_years :: "('ds, 'v, 'tr) env \<Rightarrow> string \<Rightarrow> py_error + string list" where
  "list_years env data_dir =
     (case os_listdir env data_dir of
        Inl e \<Rightarrow> Inl e
      | Inr ds \<Rightarrow> Inr (sort (filter (\<lambda>d. os_path_isdir env (os_path_join data_dir d)) ds)))"

text \<open>Lines 38-41: every year is mosaicked before the first frame is rendered.\<close>

fun load_years ::
  "('ds, 'v::{zero,ord}, 'tr) env \<Rightarrow> string \<Rightarrow> (string \<rightharpoonup> int ndarray) \<Rightarrow> string list \<Rightarrow>
     py_error + (string \<rightharpoonup> int ndarray)" where
  "load_years env data_dir year_arrays [] = Inr year_arrays"
| "load_years env data_dir year_arrays (y # ys) =
     (case mosaic_year_tiles env (os_path_join data_dir y) of
        Inl e \<Rightarrow> Inl e
      | Inr (arr, transform) \<Rightarrow> load_years env data_dir (year_arrays(y \<mapsto> arr)) ys)"

text \<open>
  \<^verbatim>\<open>main\<close>. The value is that of the loop. Creating the output directory, the font
  lookup, the figure and the writing of the image file are calls into \<^verbatim>\<open>os\<close> and
  \<^verbatim>\<open>matplotlib\<close> with no effect on the masks, the image array or the totals; they are
  not modelled.
\<close>

definition main ::
  "('ds, 'v::{zero,ord}, 'tr) env \<Rightarrow> string \<Rightarrow> (loop_state \<times> frame) list \<times> py_error option" where
  "main env data_dir =
     (case list_years env data_dir of
        Inl e \<Rightarrow> ([], Some e)
      | Inr years \<Rightarrow>
         (case load_years env data_dir Map.empty years of
            Inl e \<Rightarrow> ([], Some e)
          | Inr year_arrays \<Rightarrow> year_loop year_arrays init_state years))"

section \<open>String order\<close>

text \<open>
  Python compares strings character by character; this is the order that \<open>sort\<close> uses
  on \<open>string\<close>, written out.
\<close>

fun lex_le :: "string \<Rightarrow> string \<Rightarrow> bool" where
  "lex_le [] t = True"
| "lex_le (a # s) [] = False"
| "lex_le (a # s) (b # t) = ((of_char a :: nat) < of_char b \<or> (a = b \<and> lex_le s t))"

section \<open>Example inputs\<close>

text \<open>
  A file system with one tile per year; a dataset is its raster, and merging one tile
  gives its raster as the only band. The root \<^verbatim>\<open>data\<close> holds three years and a file,
  \<^verbatim>\<open>eras\<close> holds the years 9 and 10, \<^verbatim>\<open>misc\<close> holds a directory without entries and a
  directory of rasters with other extensions.
\<close>

definition merge_first :: "int ndarray list \<Rightarrow> py_error + (int ndarray list \<times> unit)" where
  "merge_first srcs = (case srcs of [] \<Rightarrow> Inl (LibraryError ''merge'') | d # _ \<Rightarrow> Inr ([d], ()))"

definition demo_env :: "(int ndarray, int, unit) env" where
  "demo_env =
     \<lparr>os_listdir = (\<lambda>p.
         if p = ''data'' then Inr [''2001'', ''notes.txt'', ''2000'', ''2002'']
         else if p = ''eras'' then Inr [''9'', ''10'']
         else if p = ''misc'' then Inr [''scans'', ''empty'']
         else if p \<in> set [''data/2000'', ''data/2001'', ''data/2002'', ''eras/9'', ''eras/10'']
           then Inr [''tile.tif'']
         else if p = ''misc/empty'' then Inr []
         else if p = ''misc/scans'' then Inr [''a.TIF'', ''b.tiff'', ''c.geotiff'']
         else Inl (LibraryError ''listdir'')),
      os_path_isdir = (\<lambda>p. p \<in> set [''data'', ''eras'', ''misc'', ''data/2000'', ''data/2001'',
         ''data/2002'', ''eras/9'', ''eras/10'', ''misc/empty'', ''misc/scans'']),
      iglob_dirs = (\<lambda>p. []),
      rasterio_open = (\<lambda>p.
         if p = ''data/2000/tile.tif'' then Inr (of_rows [[0, 0], [0, 0]])
         else if p = ''data/2001/tile.tif'' then Inr (of_rows [[7, 0], [- 2, 0]])
         else if p = ''data/2002/tile.tif'' then Inr (of_rows [[1, 0], [3, 255]])
         else if p \<in> set [''eras/9/tile.tif'', ''eras/10/tile.tif''] then Inr (of_rows [[1]])
         else Inl (LibraryError ''open'')),
      merge = merge_first\<rparr>"

text \<open>
  A root with the directories \<^verbatim>\<open>2000\<close> (one tile), \<^verbatim>\<open>200?\<close> (no entries) and \<^verbatim>\<open>2*\<close>
  (rasters with other extensions). As directory patterns, \<^verbatim>\<open>data/200?\<close> and \<^verbatim>\<open>data/2*\<close>
  match the directory \<^verbatim>\<open>data/2000\<close> as well.
\<close>

definition sibling_env :: "(int ndarray, int, unit) env" where
  "sibling_env =
     \<lparr>os_listdir = (\<lambda>p.
         if p = ''data'' then Inr [''2000'', ''200?'', ''2*'']
         else if p = ''data/2000'' then Inr [''tile.tif'']
         else if p = ''data/200?'' then Inr []
         else if p = ''data/2*'' then Inr [''a.TIF'', ''b.tiff'', ''c.geotiff'']
         else Inl (LibraryError ''listdir'')),
      os_path_isdir = (\<lambda>p. p \<in> set [''data'', ''data/2000'', ''data/200?'', ''data/2*'']),
      iglob_dirs = (\<lambda>p.
         if p = ''data/200?'' then [''data/2000'', ''data/200?'']
         else if p = ''data/2*'' then [''data/2000'', ''data/200?'', ''data/2*'']
         else []),
      rasterio_open = (\<lambda>p.
         if p = ''data/2000/tile.tif'' then Inr (of_rows [[1]])
         else Inl (LibraryError ''open'')),
      merge = merge_first\<rparr>"

section \<open>The invariant of the loop\<close>

text \<open>
  After the first iteration the two masks and the previous grid are set and have one
  shape, that of the first mosaic.
\<close>

definition running :: "nat \<times> nat \<Rightarrow> loop_state \<Rightarrow> bool" where
  "running sh s =
     (map_option shape (cumulative_gains s) = Some sh
      \<and> map_option shape (cumulative_losses s) = Some sh
      \<and> map_option shape (previous_arr s) = Some sh)"

text \<open>A series in which the first cell is gained in year b and lost in year c.\<close>

definition flip_arrays :: "string \<rightharpoonup> int ndarray" where
  "flip_arrays = [''a'' \<mapsto> of_rows [[0, 1]], ''b'' \<mapsto> of_rows [[1, 1]],
                  ''c'' \<mapsto> of_rows [[0, 0]], ''d'' \<mapsto> of_rows [[1, 0]]]"

definition flip_years :: "string list" where
  "flip_years = [''a'', ''b'', ''c'', ''d'']"

section \<open>Lemmas on arrays\<close>

lemma map_array_sel [simp]:
  "nrows (map_array f a) = nrows a" "ncols (map_array f a) = ncols a"
  "cell (map_array f a) i j = f (cell a i j)"
  by (simp_all add: map_array_def)

lemma eq_scalar_sel [simp]:
  "nrows (eq_scalar a c) = nrows a" "ncols (eq_scalar a c) = ncols a"
  "cell (eq_scalar a c) i j = (cell a i j = c)"
  by (simp_all add: eq_scalar_def)

lemma gt_scalar_sel [simp]:
  "nrows (gt_scalar a c) = nrows a" "ncols (gt_scalar a c) = ncols a"
  "cell (gt_scalar a c) i j = (c < cell a i j)"
  by (simp_all add: gt_scalar_def)

lemma np_where_sel [simp]:
  "nrows (np_where m x y) = nrows m" "ncols (np_where m x y) = ncols m"
  "cell (np_where m x y) i j = (if cell m i j then x else y)"
  by (simp_all add: np_where_def)

lemma np_zeros_like_sel [simp]:
  "nrows (np_zeros_like a) = nrows a" "ncols (np_zeros_like a) = ncols a"
  "cell (np_zeros_like a) i j = False"
  by (simp_all add: np_zeros_like_def)

lemma np_zeros_sel [simp]:
  "nrows (np_zeros h w) = h" "ncols (np_zeros h w) = w" "cell (np_zeros h w) i j = transparent"
  by (simp_all add: np_zeros_def)

lemma and_same_shape:
  "shape a = shape b \<Longrightarrow>
   np_and a b = Inr \<lparr>nrows = nrows a, ncols = ncols a, cell = (\<lambda>i j. bcell a i j \<and> bcell b i j)\<rparr>"
  by (simp add: np_and_def shape_def broadcast_dim_def)

lemma bcell_in_range: "i < nrows a \<Longrightarrow> j < ncols a \<Longrightarrow> bcell a i j = cell a i j"
  by (auto simp: bcell_def)

section \<open>Lemmas on paths\<close>

lemmas path_defs = glob_tif_def os_path_join_def posix_split_def sep_def rstrip_sep_def
  has_magic_def glob1_tif_def listed_names_def tif_name_def ishidden_def endswith_def

lemma join_empty [simp]: "os_path_join [] = (\<lambda>b. b)"
  by (rule ext) (simp add: os_path_join_def)

lemma split_join_tif:
  "posix_split (os_path_join p ''*.tif'') =
     (let a = (if p = [] \<or> last p = sep then p else p @ [sep])
      in (if a \<noteq> [] \<and> \<not> list_all (\<lambda>c. c = sep) a then rstrip_sep a else a, ''*.tif''))"
proof -
  define a where "a = (if p = [] \<or> last p = sep then p else p @ [sep])"
  have j: "os_path_join p ''*.tif'' = a @ ''*.tif''"
    by (simp add: os_path_join_def a_def sep_def)
  have e: "a = [] \<or> last a = sep"
    by (simp add: a_def)
  have tw: "takeWhile (\<lambda>c. c \<noteq> sep) (rev a) = []"
    using e by (cases a rule: rev_cases) auto
  have t: "takeWhile (\<lambda>c. c \<noteq> sep) (rev (a @ ''*.tif'')) = rev ''*.tif''"
    using tw by (simp add: sep_def)
  show ?thesis
    unfolding j posix_split_def t using a_def by (simp add: Let_def)
qed

lemma set_rstrip: "set (rstrip_sep a) \<subseteq> set a"
  unfolding rstrip_sep_def using set_dropWhileD by fastforce

lemma set_year_dir: "set (year_dir p) \<subseteq> insert sep (set p)"
  using set_rstrip [of p] set_rstrip [of "p @ [sep]"]
  by (auto simp: year_dir_def split_join_tif Let_def)

lemma magic_year_dir: "has_magic (year_dir p) \<Longrightarrow> has_magic p"
  using set_year_dir [of p] by (auto simp: has_magic_def list_ex_iff sep_def)

text \<open>A year path that does not end with a separator is the directory that is listed.\<close>

lemma year_dir_plain: "p \<noteq> [] \<Longrightarrow> last p \<noteq> sep \<Longrightarrow> year_dir p = p"
  by (cases p rule: rev_cases) (auto simp: year_dir_def split_join_tif rstrip_sep_def)

lemma glob_tif_plain:
  assumes "\<not> has_magic year_path"
  shows "glob_tif env (os_path_join year_path ''*.tif'') =
         map (os_path_join (year_dir year_path)) (glob1_tif env (year_dir year_path))"
proof -
  have "\<not> has_magic (year_dir year_path)"
    using assms magic_year_dir by blast
  then show ?thesis
    by (simp add: glob_tif_def year_dir_def [symmetric] Let_def)
qed

section \<open>The marking of one transition\<close>

text \<open>
  C1. For two grids \<open>A\<close> (previous year) and \<open>B\<close> (current year) of the same shape, lines
  64-65 raise nothing, both masks have the shape of the grids, and at every cell of the
  grid: the cell is marked gained exactly when \<open>A\<close> is 0 and \<open>B\<close> is 1 there, it is marked
  lost exactly when \<open>A\<close> is 1 and \<open>B\<close> is 0 there, and it is not marked both.
\<close>

theorem transition_marking:
  assumes "shape A = shape B" and "i < nrows A" and "j < ncols A"
  shows "\<exists>G L. transition_masks A B = Inr (G, L) \<and> shape G = shape A \<and> shape L = shape A
           \<and> cell G i j = (cell A i j = 0 \<and> cell B i j = 1)
           \<and> cell L i j = (cell A i j = 1 \<and> cell B i j = 0)
           \<and> \<not> (cell G i j \<and> cell L i j)"
proof -
  have sh: "shape (eq_scalar A x) = shape (eq_scalar B y)" for x y
    using assms(1) by (simp add: shape_def)
  have inB: "i < nrows B" "j < ncols B"
    using assms by (simp_all add: shape_def)
  have tm: "transition_masks A B =
      Inr (\<lparr>nrows = nrows (eq_scalar A 0), ncols = ncols (eq_scalar A 0),
             cell = (\<lambda>i j. bcell (eq_scalar A 0) i j \<and> bcell (eq_scalar B 1) i j)\<rparr>,
           \<lparr>nrows = nrows (eq_scalar A 1), ncols = ncols (eq_scalar A 1),
             cell = (\<lambda>i j. bcell (eq_scalar A 1) i j \<and> bcell (eq_scalar B 0) i j)\<rparr>)"
    unfolding transition_masks_def by (simp add: and_same_shape [OF sh])
  have bc: "bcell (eq_scalar A x) i j = (cell A i j = x)"
    "bcell (eq_scalar B x) i j = (cell B i j = x)" for x
    using assms(2,3) inB by (simp_all add: bcell_in_range)
  show ?thesis
    unfolding tm by (simp add: bc shape_def)
qed

theorem transition_marking_witness:
  "shape (of_rows [[0, 1], [1, 0 :: int]]) = shape (of_rows [[1, 1], [0, 0 :: int]])
   \<and> (\<exists>G L. transition_masks (of_rows [[0, 1], [1, 0]]) (of_rows [[1, 1], [0, 0]]) = Inr (G, L)
         \<and> cell G 0 0 \<and> \<not> cell L 0 0 \<and> \<not> cell G 1 0 \<and> cell L 1 0)"
  using transition_marking [of "of_rows [[0, 1], [1, 0]]" "of_rows [[1, 1], [0, 0]]" 0 0]
    transition_marking [of "of_rows [[0, 1], [1, 0]]" "of_rows [[1, 1], [0, 0]]" 1 0]
  by (auto simp: of_rows_def shape_def)

section \<open>The tile mosaicker\<close>

text \<open>
  C7. For every array that \<^verbatim>\<open>merge\<close> returns for the opened tiles, with at least one
  band, the mosaicker returns a grid made from the first band alone: it has the shape of
  that band, and every cell is 1 where the band is greater than zero and 0 anywhere
  else. Every grid that the mosaicker returns is made this way, so each of its cells is
  0 or 1.
\<close>

theorem mosaic_binary:
  "(\<forall>srcs band rest tr.
       glob_tif env (os_path_join year_path ''*.tif'') \<noteq> []
       \<and> open_all env (glob_tif env (os_path_join year_path ''*.tif'')) = Inr srcs
       \<and> merge env srcs = Inr (band # rest, tr)
       \<longrightarrow> (\<exists>A. mosaic_year_tiles env year_path = Inr (A, tr) \<and> shape A = shape band
              \<and> (\<forall>i j. cell A i j = (if 0 < cell band i j then 1 else 0))))
   \<and> (\<forall>A tr. mosaic_year_tiles env year_path = Inr (A, tr)
       \<longrightarrow> (\<exists>srcs band rest.
              open_all env (glob_tif env (os_path_join year_path ''*.tif'')) = Inr srcs
              \<and> merge env srcs = Inr (band # rest, tr) \<and> shape A = shape band
              \<and> (\<forall>i j. cell A i j = (if 0 < cell band i j then 1 else 0)))
           \<and> (\<forall>i j. cell A i j = 0 \<or> cell A i j = 1))"
proof -
  have fwd: "\<exists>A. mosaic_year_tiles env year_path = Inr (A, tr) \<and> shape A = shape band
              \<and> (\<forall>i j. cell A i j = (if 0 < cell band i j then 1 else 0))"
    if "glob_tif env (os_path_join year_path ''*.tif'') \<noteq> []
       \<and> open_all env (glob_tif env (os_path_join year_path ''*.tif'')) = Inr srcs
       \<and> merge env srcs = Inr (band # rest, tr)" for srcs band rest tr
  proof -
    from that have "mosaic_year_tiles env year_path = Inr (np_where (gt_scalar band 0) 1 0, tr)"
      by (simp add: mosaic_year_tiles_def Let_def)
    then show ?thesis
      by (simp add: shape_def)
  qed
  have bwd: "(\<exists>srcs band rest.
              open_all env (glob_tif env (os_path_join year_path ''*.tif'')) = Inr srcs
              \<and> merge env srcs = Inr (band # rest, tr) \<and> shape A = shape band
              \<and> (\<forall>i j. cell A i j = (if 0 < cell band i j then 1 else 0)))
           \<and> (\<forall>i j. cell A i j = 0 \<or> cell A i j = 1)"
    if "mosaic_year_tiles env year_path = Inr (A, tr)" for A tr
    using that
    by (auto simp: mosaic_year_tiles_def Let_def shape_def
        split: if_splits sum.splits list.splits prod.splits)
  from fwd bwd show ?thesis
    by blast
qed

theorem mosaic_binary_witness:
  "glob_tif demo_env (os_path_join ''data/2001'' ''*.tif'') = [''data/2001/tile.tif'']
   \<and> open_all demo_env [''data/2001/tile.tif''] = Inr [of_rows [[7, 0], [- 2, 0]]]
   \<and> merge demo_env [of_rows [[7, 0], [- 2, 0]]] = Inr ([of_rows [[7, 0], [- 2, 0]]], ())
   \<and> (\<exists>A. mosaic_year_tiles demo_env ''data/2001'' = Inr (A, ())
         \<and> cell A 0 0 = 1 \<and> cell A 0 1 = 0 \<and> cell A 1 0 = 0 \<and> cell A 1 1 = 0)"
proof -
  have g: "glob_tif demo_env (os_path_join ''data/2001'' ''*.tif'') = [''data/2001/tile.tif'']"
    by (simp add: path_defs demo_env_def)
  have o: "open_all demo_env [''data/2001/tile.tif''] = Inr [of_rows [[7, 0], [- 2, 0]]]"
    by (simp add: demo_env_def)
  have m: "merge demo_env [of_rows [[7, 0], [- 2, 0]]] = Inr ([of_rows [[7, 0], [- 2, 0]]], ())"
    by (simp add: demo_env_def merge_first_def)
  from mosaic_binary [of demo_env "''data/2001''"] g o m
  obtain A :: "int ndarray" where
    a: "mosaic_year_tiles demo_env ''data/2001'' = Inr (A, ())" and
    c: "\<And>i j. cell A i j = (if 0 < cell (of_rows [[7, 0], [- 2, 0 :: int]]) i j then 1 else 0)"
    by (metis list.distinct(1))
  have "cell A 0 0 = 1" "cell A 0 1 = 0" "cell A 1 0 = 0" "cell A 1 1 = 0"
    by (simp_all add: c of_rows_def)
  with g o m a show ?thesis by blast
qed

text \<open>
  C3. The claim does not hold of the code: line 11 hands the year path to \<^verbatim>\<open>glob\<close>
  unescaped, so a year directory whose name holds one of \<^verbatim>\<open>* ? [\<close> is searched as a
  pattern, against the message \<^verbatim>\<open>No .tif files found in {year_path}\<close> of line 13.
  \<^verbatim>\<open>main\<close> takes \<^verbatim>\<open>200?\<close> as a year like any other directory; the directory
  \<^verbatim>\<open>data/200?\<close> has no entry; the files found for it are the tile of \<^verbatim>\<open>data/2000\<close>, and
  the mosaicker returns a mosaic where the claim asks for FileNotFoundError.
\<close>

theorem mosaic_empty_dir_returns:
  "list_years sibling_env ''data'' = Inr [''2*'', ''2000'', ''200?'']
   \<and> os_listdir sibling_env ''data/200?'' = Inr []
   \<and> glob_tif sibling_env (os_path_join ''data/200?'' ''*.tif'') = [''data/2000/tile.tif'']
   \<and> \<not> isl (mosaic_year_tiles sibling_env ''data/200?'')"
proof -
  have "list_years sibling_env ''data'' = Inr [''2*'', ''2000'', ''200?'']"
    by code_simp
  moreover have "os_listdir sibling_env ''data/200?'' = Inr []"
    by (simp add: sibling_env_def)
  moreover have g:
    "glob_tif sibling_env (os_path_join ''data/200?'' ''*.tif'') = [''data/2000/tile.tif'']"
    by (simp add: path_defs sibling_env_def)
  moreover have "\<not> isl (mosaic_year_tiles sibling_env ''data/200?'')"
    by (simp add: mosaic_year_tiles_def g) (simp add: sibling_env_def merge_first_def)
  ultimately show ?thesis by simp
qed

text \<open>
  C9. The claim does not hold of the code, by the same defect of line 11: every entry of
  the directory \<^verbatim>\<open>data/2*\<close> carries another extension, the files found for it are the
  tile of \<^verbatim>\<open>data/2000\<close>, and the mosaicker returns a mosaic where the claim asks for
  FileNotFoundError. For the directory \<^verbatim>\<open>misc/scans\<close>, with the same entries and a name
  without metacharacters, it raises the error.
\<close>

theorem tif_other_extensions_returns:
  "os_listdir sibling_env ''data/2*'' = Inr [''a.TIF'', ''b.tiff'', ''c.geotiff'']
   \<and> glob_tif sibling_env (os_path_join ''data/2*'' ''*.tif'') = [''data/2000/tile.tif'']
   \<and> \<not> isl (mosaic_year_tiles sibling_env ''data/2*'')
   \<and> os_listdir demo_env ''misc/scans'' = Inr [''a.TIF'', ''b.tiff'', ''c.geotiff'']
   \<and> mosaic_year_tiles demo_env ''misc/scans'' =
       Inl (FileNotFoundError ''No .tif files found in misc/scans'')"
proof -
  have "os_listdir sibling_env ''data/2*'' = Inr [''a.TIF'', ''b.tiff'', ''c.geotiff'']"
    by (simp add: sibling_env_def)
  moreover have g:
    "glob_tif sibling_env (os_path_join ''data/2*'' ''*.tif'') = [''data/2000/tile.tif'']"
    by (simp add: path_defs sibling_env_def)
  moreover have "\<not> isl (mosaic_year_tiles sibling_env ''data/2*'')"
    by (simp add: mosaic_year_tiles_def g) (simp add: sibling_env_def merge_first_def)
  moreover have "os_listdir demo_env ''misc/scans'' = Inr [''a.TIF'', ''b.tiff'', ''c.geotiff'']"
    by (simp add: demo_env_def)
  moreover have "mosaic_year_tiles demo_env ''misc/scans'' =
       Inl (FileNotFoundError ''No .tif files found in misc/scans'')"
    by (simp add: mosaic_year_tiles_def path_defs demo_env_def)
  ultimately show ?thesis by simp
qed

section \<open>Year paths without metacharacters\<close>

text \<open>
  Where the defect of line 11 does not reach. For a year path without \<^verbatim>\<open>* ? [\<close>, one
  directory is listed. Without a tile file in it (an entry whose name ends with \<^verbatim>\<open>.tif\<close>
  and does not start with a dot, compared as POSIX Python compares), the mosaicker
  raises FileNotFoundError, and it returns a mosaic only with a tile file in it.
\<close>

lemma plain_path_no_tiles:
  assumes "\<not> has_magic year_path"
  shows "(glob1_tif env (year_dir year_path) = [] \<longrightarrow>
            mosaic_year_tiles env year_path =
              Inl (FileNotFoundError (''No .tif files found in '' @ year_path)))
         \<and> (\<forall>r. mosaic_year_tiles env year_path = Inr r \<longrightarrow>
               glob1_tif env (year_dir year_path) \<noteq> [])"
  by (auto simp: mosaic_year_tiles_def glob_tif_plain [OF assms] Let_def)

text \<open>
  For such a path the tiles are chosen by name alone, and a directory whose entries all
  carry other extensions raises FileNotFoundError.
\<close>

lemma plain_path_tif_names:
  assumes "\<not> has_magic year_path"
  shows "glob_tif env (os_path_join year_path ''*.tif'') =
           map (os_path_join (year_dir year_path))
             (filter (\<lambda>n. \<not> ishidden n \<and> endswith n ''.tif'')
                (listed_names env (year_dir year_path)))
         \<and> (list_all (\<lambda>n. \<not> endswith n ''.tif'') (listed_names env (year_dir year_path)) \<longrightarrow>
              mosaic_year_tiles env year_path =
                Inl (FileNotFoundError (''No .tif files found in '' @ year_path)))"
proof -
  have g: "glob1_tif env d = filter (\<lambda>n. \<not> ishidden n \<and> endswith n ''.tif'') (listed_names env d)"
    for d
    by (simp add: glob1_tif_def tif_name_def [abs_def])
  have "list_all (\<lambda>n. \<not> endswith n ''.tif'') (listed_names env d) \<Longrightarrow> glob1_tif env d = []" for d
    unfolding g by (induction "listed_names env d") (auto simp: list_all_iff filter_empty_conv)
  then show ?thesis
    by (auto simp: mosaic_year_tiles_def glob_tif_plain [OF assms] g Let_def)
qed

section \<open>Lemmas on one iteration\<close>

lemma index_assign_SomeD:
  assumes "index_assign arr (Some m) v = Inr arr'"
  shows "shape m = shape arr" "nrows arr' = nrows arr" "ncols arr' = ncols arr"
    "cell arr' i j = (if cell m i j then v else cell arr i j)"
  using assms by (auto simp: index_assign_def split: if_splits)

lemma np_andD:
  assumes "np_and a b = Inr c"
  shows "broadcast_dim (nrows a) (nrows b) = Some (nrows c)"
    "broadcast_dim (ncols a) (ncols b) = Some (ncols c)"
    "cell c i j = (bcell a i j \<and> bcell b i j)"
  using assms by (auto simp: np_and_def split: option.splits)

lemma transition_masksD:
  assumes "transition_masks p c = Inr (G, L)"
  shows "broadcast_dim (nrows p) (nrows c) = Some (nrows G)"
    "broadcast_dim (ncols p) (ncols c) = Some (ncols G)"
    "shape L = shape G"
    "cell G i j = (bcell (eq_scalar p 0) i j \<and> bcell (eq_scalar c 1) i j)"
    "cell L i j = (bcell (eq_scalar p 1) i j \<and> bcell (eq_scalar c 0) i j)"
proof -
  from assms have
    g: "np_and (eq_scalar p 0) (eq_scalar c 1) = Inr G" and
    l: "np_and (eq_scalar p 1) (eq_scalar c 0) = Inr L"
    by (auto simp: transition_masks_def split: sum.splits)
  from np_andD [OF g] np_andD [OF l]
  show "broadcast_dim (nrows p) (nrows c) = Some (nrows G)"
    "broadcast_dim (ncols p) (ncols c) = Some (ncols G)"
    "shape L = shape G"
    "cell G i j = (bcell (eq_scalar p 0) i j \<and> bcell (eq_scalar c 1) i j)"
    "cell L i j = (bcell (eq_scalar p 1) i j \<and> bcell (eq_scalar c 0) i j)"
    by (simp_all add: shape_def)
qed

lemma render_frameD:
  assumes "render_frame s cur y = Inr f"
  shows "\<exists>g l. cumulative_gains s = Some g \<and> cumulative_losses s = Some l
     \<and> shape g = shape cur \<and> shape l = shape cur
     \<and> year f = y \<and> shape (rgba f) = shape cur
     \<and> (\<forall>i j. cell (rgba f) i j =
           (if cell l i j then red else if cell g i j then yellow else transparent))
     \<and> total_gains_area f = real (np_sum g) * pixel_area_km2
     \<and> total_losses_area f = real (np_sum l) * pixel_area_km2"
proof -
  from assms obtain g l where gl: "cumulative_gains s = Some g" "cumulative_losses s = Some l"
    by (auto simp: render_frame_def split: sum.splits option.splits)
  from assms gl obtain r1 r2 where
    r1: "index_assign (np_zeros (nrows cur) (ncols cur)) (Some g) yellow = Inr r1" and
    r2: "index_assign r1 (Some l) red = Inr r2" and
    f: "f = \<lparr>year = y, rgba = r2, total_gains_area = real (np_sum g) * pixel_area_km2,
             total_losses_area = real (np_sum l) * pixel_area_km2\<rparr>"
    by (auto simp: render_frame_def split: sum.splits)
  from index_assign_SomeD [OF r1] index_assign_SomeD [OF r2] gl f
  show ?thesis
    by (auto simp: shape_def)
qed

lemma update_cumulative_None:
  "previous_arr s = None \<Longrightarrow> update_cumulative s cur = Inr s"
  by (simp add: update_cumulative_def)

lemma update_cumulativeD:
  assumes "update_cumulative s cur = Inr s'" and "previous_arr s = Some p"
  shows "\<exists>g l g' l' G L. cumulative_gains s = Some g \<and> cumulative_losses s = Some l
     \<and> transition_masks p cur = Inr (G, L) \<and> shape G = shape g \<and> shape L = shape l
     \<and> cumulative_gains s' = Some g' \<and> cumulative_losses s' = Some l'
     \<and> shape g' = shape g \<and> shape l' = shape l
     \<and> (\<forall>i j. cell g' i j = (cell G i j \<or> cell g i j))
     \<and> (\<forall>i j. cell l' i j = (cell L i j \<or> cell l i j))"
proof -
  from assms obtain G L g l g' l' where
    t: "transition_masks p cur = Inr (G, L)" and
    g: "cumulative_gains s = Some g" and ag: "index_assign g (Some G) True = Inr g'" and
    l: "cumulative_losses s = Some l" and al: "index_assign l (Some L) True = Inr l'" and
    s': "s' = s\<lparr>cumulative_gains := Some g', cumulative_losses := Some l'\<rparr>"
    by (auto simp: update_cumulative_def split: sum.splits option.splits prod.splits)
  from index_assign_SomeD [OF ag] index_assign_SomeD [OF al] t g l s'
  show ?thesis
    by (rule_tac x = g in exI, rule_tac x = l in exI, rule_tac x = g' in exI,
        rule_tac x = l' in exI, rule_tac x = G in exI, rule_tac x = L in exI)
      (simp add: shape_def)
qed

text \<open>One iteration that returns: what it leaves in the state and in the frame.\<close>

lemma loop_bodyD:
  assumes "loop_body ya s y = Inr (s', f)"
  shows "\<exists>cur g l. ya y = Some cur \<and> previous_arr s' = Some cur
     \<and> cumulative_gains s' = Some g \<and> cumulative_losses s' = Some l
     \<and> shape g = shape cur \<and> shape l = shape cur
     \<and> year f = y \<and> shape (rgba f) = shape cur
     \<and> (\<forall>i j. cell (rgba f) i j =
           (if cell l i j then red else if cell g i j then yellow else transparent))
     \<and> total_gains_area f = real (np_sum g) * pixel_area_km2
     \<and> total_losses_area f = real (np_sum l) * pixel_area_km2"
proof -
  from assms obtain cur s1 where
    c: "ya y = Some cur" and
    u: "update_cumulative (init_cumulative s cur) cur = Inr s1" and
    r: "render_frame s1 cur y = Inr f" and
    s': "s' = s1\<lparr>previous_arr := Some cur\<rparr>"
    by (auto simp: loop_body_def split: option.splits sum.splits)
  from render_frameD [OF r] c s' show ?thesis
    by auto
qed

text \<open>The first iteration: no previous year, the masks are created all false.\<close>

lemma loop_body_first:
  assumes "loop_body ya s y = Inr (s', f)"
    and "cumulative_losses s = None" and "previous_arr s = None"
  shows "\<exists>cur. ya y = Some cur \<and> cumulative_gains s' = Some (np_zeros_like cur)
     \<and> cumulative_losses s' = Some (np_zeros_like cur)"
  using assms
  by (auto simp: loop_body_def init_cumulative_def update_cumulative_None
      split: option.splits sum.splits)

lemma loop_body_first_total:
  assumes "ya y = Some cur"
  shows "\<exists>s' f. loop_body ya init_state y = Inr (s', f)"
  using assms
  by (simp add: loop_body_def init_cumulative_def init_state_def update_cumulative_None
      render_frame_def index_assign_def shape_def)

text \<open>A later iteration: the masks of the transition are added to the cumulative masks.\<close>

lemma loop_body_next:
  assumes "loop_body ya s y = Inr (s', f)"
    and "previous_arr s = Some p" and "cumulative_gains s = Some g"
    and "cumulative_losses s = Some l" and "shape g = shape p" and "shape l = shape p"
  shows "\<exists>cur g' l'. ya y = Some cur \<and> shape cur = shape p
     \<and> cumulative_gains s' = Some g' \<and> cumulative_losses s' = Some l'
     \<and> shape g' = shape p \<and> shape l' = shape p
     \<and> (\<forall>i j. cell g i j \<longrightarrow> cell g' i j) \<and> (\<forall>i j. cell l i j \<longrightarrow> cell l' i j)
     \<and> (\<forall>i j. i < nrows p \<and> j < ncols p \<longrightarrow>
           cell g' i j = (cell g i j \<or> cell p i j = 0 \<and> cell cur i j = 1)
         \<and> cell l' i j = (cell l i j \<or> cell p i j = 1 \<and> cell cur i j = 0))"
proof -
  from assms(1) obtain cur s1 where
    c: "ya y = Some cur" and
    u: "update_cumulative (init_cumulative s cur) cur = Inr s1" and
    r: "render_frame s1 cur y = Inr f" and
    s': "s' = s1\<lparr>previous_arr := Some cur\<rparr>"
    by (auto simp: loop_body_def split: option.splits sum.splits)
  have i: "init_cumulative s cur = s"
    using assms(4) by (simp add: init_cumulative_def)
  from update_cumulativeD [OF u [unfolded i] assms(2)] assms(3,4) obtain g' l' G L where
    t: "transition_masks p cur = Inr (G, L)" and
    sh: "shape G = shape g" "shape L = shape l" "shape g' = shape g" "shape l' = shape l" and
    m: "cumulative_gains s1 = Some g'" "cumulative_losses s1 = Some l'" and
    cg: "\<And>i j. cell g' i j = (cell G i j \<or> cell g i j)" and
    cl: "\<And>i j. cell l' i j = (cell L i j \<or> cell l i j)"
    by auto
  from render_frameD [OF r] m have shc: "shape g' = shape cur"
    by auto
  with sh assms(5) have pc: "shape cur = shape p"
    by simp
  have G: "cell G i j = (cell p i j = 0 \<and> cell cur i j = 1)"
    and L: "cell L i j = (cell p i j = 1 \<and> cell cur i j = 0)"
    if "i < nrows p" "j < ncols p" for i j
    using that pc transition_masksD(4,5) [OF t, of i j]
    by (simp_all add: bcell_in_range shape_def)
  show ?thesis
    using c pc sh m s' assms(5,6) cg cl G L
    by (rule_tac x = cur in exI, rule_tac x = g' in exI, rule_tac x = l' in exI) auto
qed


section \<open>Lemmas on the loop\<close>

lemma year_loop_length:
  "year_loop ya s ys = (tr, r) \<Longrightarrow> length tr \<le> length ys \<and> (r = None \<longrightarrow> length tr = length ys)"
proof (induction ys arbitrary: s tr r)
  case Nil
  then show ?case by simp
next
  case (Cons y ys)
  then show ?case
    by (fastforce split: sum.splits prod.splits)
qed

text \<open>Iteration \<open>n\<close> of the loop starts from the state that iteration \<open>n - 1\<close> left.\<close>

lemma year_loop_step:
  "year_loop ya s ys = (tr, r) \<Longrightarrow> n < length tr \<Longrightarrow>
   loop_body ya (if n = 0 then s else fst (tr ! (n - 1))) (ys ! n) = Inr (tr ! n)"
proof (induction ys arbitrary: s tr n)
  case Nil
  then show ?case by simp
next
  case (Cons y ys)
  from Cons.prems obtain s' f tr' where
    b: "loop_body ya s y = Inr (s', f)" and
    l: "year_loop ya s' ys = (tr', r)" and
    tr: "tr = (s', f) # tr'"
    by (auto split: sum.splits prod.splits)
  show ?case
  proof (cases n)
    case 0
    then show ?thesis using b tr by simp
  next
    case (Suc m)
    with Cons.prems tr have "m < length tr'" by simp
    from Cons.IH [OF l this] show ?thesis
      using Suc tr by (cases m) simp_all
  qed
qed

lemma runningD:
  assumes "running sh s"
  obtains g l p where "cumulative_gains s = Some g" "cumulative_losses s = Some l"
    "previous_arr s = Some p" "shape g = sh" "shape l = sh" "shape p = sh"
  using assms by (auto simp: running_def)

lemma running_first:
  assumes "loop_body ya init_state y = Inr (s', f)"
  shows "\<exists>a. ya y = Some a \<and> running (shape a) s'"
  using loop_bodyD [OF assms] by (auto simp: running_def)

lemma running_next:
  assumes "loop_body ya s y = Inr (s', f)" and "running sh s"
  shows "running sh s'"
proof -
  from assms(2) obtain g l p where
    s: "cumulative_gains s = Some g" "cumulative_losses s = Some l"
    "previous_arr s = Some p" "shape g = sh" "shape l = sh" "shape p = sh"
    by (rule runningD)
  from loop_body_next [OF assms(1) s(3) s(1) s(2)] s(4-6) loop_bodyD [OF assms(1)]
  show ?thesis
    by (auto simp: running_def)
qed

lemma trace_running:
  assumes "year_loop ya init_state ys = (tr, r)" and "n < length tr"
  shows "\<exists>a. ya (ys ! 0) = Some a \<and> running (shape a) (fst (tr ! n))"
  using assms(2)
proof (induction n)
  case 0
  from year_loop_step [OF assms(1) 0] have "loop_body ya init_state (ys ! 0) = Inr (tr ! 0)"
    by simp
  then show ?case
    using running_first [of ya "ys ! 0" "fst (tr ! 0)" "snd (tr ! 0)"] by simp
next
  case (Suc n)
  then obtain a where a: "ya (ys ! 0) = Some a" "running (shape a) (fst (tr ! n))"
    by auto
  from year_loop_step [OF assms(1) Suc.prems]
  have "loop_body ya (fst (tr ! n)) (ys ! Suc n) = Inr (fst (tr ! Suc n), snd (tr ! Suc n))"
    by simp
  from running_next [OF this a(2)] a(1) show ?case
    by auto
qed

lemma count_filter_mono:
  "(\<And>x. x \<in> set xs \<Longrightarrow> P x \<Longrightarrow> Q x) \<Longrightarrow> length (filter P xs) \<le> length (filter Q xs)"
  by (induction xs) auto

lemma np_sum_mono:
  assumes "shape a = shape b" and "\<And>i j. cell a i j \<Longrightarrow> cell b i j"
  shows "np_sum a \<le> np_sum b"
  using assms unfolding np_sum_def shape_def
  by (auto intro!: count_filter_mono)

text \<open>The masks only grow from one completed iteration to a later one.\<close>

lemma trace_mono:
  assumes "year_loop ya init_state ys = (tr, r)" and "k \<le> n" and "n < length tr"
  shows "\<exists>gk lk gn ln. cumulative_gains (fst (tr ! k)) = Some gk
     \<and> cumulative_losses (fst (tr ! k)) = Some lk
     \<and> cumulative_gains (fst (tr ! n)) = Some gn
     \<and> cumulative_losses (fst (tr ! n)) = Some ln
     \<and> shape gn = shape gk \<and> shape ln = shape lk
     \<and> (\<forall>i j. cell gk i j \<longrightarrow> cell gn i j) \<and> (\<forall>i j. cell lk i j \<longrightarrow> cell ln i j)"
  using assms(2,3)
proof (induction n)
  case 0
  then have "k = 0" by simp
  from trace_running [OF assms(1) 0(2)] show ?case
    unfolding \<open>k = 0\<close> by (auto elim!: runningD)
next
  case (Suc n)
  show ?case
  proof (cases "k = Suc n")
    case True
    from trace_running [OF assms(1) Suc.prems(2)] show ?thesis
      unfolding True by (auto elim!: runningD)
  next
    case False
    with Suc.prems have kn: "k \<le> n" "n < length tr" by simp_all
    from Suc.IH [OF kn] obtain gk lk gn ln where
      k: "cumulative_gains (fst (tr ! k)) = Some gk" "cumulative_losses (fst (tr ! k)) = Some lk"
      and n: "cumulative_gains (fst (tr ! n)) = Some gn" "cumulative_losses (fst (tr ! n)) = Some ln"
      and sh: "shape gn = shape gk" "shape ln = shape lk"
      and m: "\<And>i j. cell gk i j \<Longrightarrow> cell gn i j" "\<And>i j. cell lk i j \<Longrightarrow> cell ln i j"
      by blast
    from trace_running [OF assms(1) kn(2)] n obtain p where
      p: "previous_arr (fst (tr ! n)) = Some p" "shape gn = shape p" "shape ln = shape p"
      by (auto elim!: runningD)
    from year_loop_step [OF assms(1) Suc.prems(2)]
    have b: "loop_body ya (fst (tr ! n)) (ys ! Suc n) = Inr (fst (tr ! Suc n), snd (tr ! Suc n))"
      by simp
    from loop_body_next [OF b p(1) n p(2,3)] obtain g' l' where
      s: "cumulative_gains (fst (tr ! Suc n)) = Some g'"
      "cumulative_losses (fst (tr ! Suc n)) = Some l'"
      "shape g' = shape p" "shape l' = shape p"
      and m': "\<And>i j. cell gn i j \<Longrightarrow> cell g' i j" "\<And>i j. cell ln i j \<Longrightarrow> cell l' i j"
      by blast
    show ?thesis
      using k s sh p m m'
      by (rule_tac x = gk in exI, rule_tac x = lk in exI, rule_tac x = g' in exI,
          rule_tac x = l' in exI) auto
  qed
qed


lemma trace_frame:
  assumes "year_loop ya init_state ys = (tr, r)" and "n < length tr"
  shows "\<exists>cur g l. ya (ys ! n) = Some cur \<and> previous_arr (fst (tr ! n)) = Some cur
     \<and> cumulative_gains (fst (tr ! n)) = Some g \<and> cumulative_losses (fst (tr ! n)) = Some l
     \<and> shape g = shape cur \<and> shape l = shape cur
     \<and> year (snd (tr ! n)) = ys ! n \<and> shape (rgba (snd (tr ! n))) = shape cur
     \<and> (\<forall>i j. cell (rgba (snd (tr ! n))) i j =
           (if cell l i j then red else if cell g i j then yellow else transparent))
     \<and> total_gains_area (snd (tr ! n)) = real (np_sum g) * pixel_area_km2
     \<and> total_losses_area (snd (tr ! n)) = real (np_sum l) * pixel_area_km2"
proof -
  from year_loop_step [OF assms]
  have "loop_body ya (if n = 0 then init_state else fst (tr ! (n - 1))) (ys ! n) =
      Inr (fst (tr ! n), snd (tr ! n))"
    by simp
  from loop_bodyD [OF this] show ?thesis .
qed

lemma trace_transition:
  assumes "year_loop ya init_state ys = (tr, r)" and "Suc n < length tr"
    and "ya (ys ! n) = Some A" and "ya (ys ! Suc n) = Some B"
    and "i < nrows A" and "j < ncols A"
  shows "\<exists>g l. cumulative_gains (fst (tr ! Suc n)) = Some g
     \<and> cumulative_losses (fst (tr ! Suc n)) = Some l
     \<and> (cell A i j = 0 \<and> cell B i j = 1 \<longrightarrow> cell g i j)
     \<and> (cell A i j = 1 \<and> cell B i j = 0 \<longrightarrow> cell l i j)"
proof -
  from assms(2) have n: "n < length tr" by simp
  from trace_frame [OF assms(1) n] assms(3) obtain g l where
    s: "previous_arr (fst (tr ! n)) = Some A" "cumulative_gains (fst (tr ! n)) = Some g"
    "cumulative_losses (fst (tr ! n)) = Some l" "shape g = shape A" "shape l = shape A"
    by auto
  from year_loop_step [OF assms(1,2)]
  have b: "loop_body ya (fst (tr ! n)) (ys ! Suc n) = Inr (fst (tr ! Suc n), snd (tr ! Suc n))"
    by simp
  from loop_body_next [OF b s] assms(4-6) show ?thesis
    by auto
qed

lemma np_sum_zeros [simp]: "np_sum (np_zeros_like a) = 0"
  by (simp add: np_sum_def split_def)

lemma load_years_other:
  "load_years env d m ys = Inr ya \<Longrightarrow> y \<notin> set ys \<Longrightarrow> ya y = m y"
  by (induction ys arbitrary: m) (auto split: sum.splits prod.splits)

lemma load_years_lookup:
  "load_years env d m ys = Inr ya \<Longrightarrow> y \<in> set ys \<Longrightarrow>
   \<exists>a t. ya y = Some a \<and> mosaic_year_tiles env (os_path_join d y) = Inr (a, t)"
proof (induction ys arbitrary: m)
  case Nil
  then show ?case by simp
next
  case (Cons x xs)
  from Cons.prems(1) obtain arr t where
    x: "mosaic_year_tiles env (os_path_join d x) = Inr (arr, t)" and
    l: "load_years env d (m(x \<mapsto> arr)) xs = Inr ya"
    by (auto split: sum.splits prod.splits)
  show ?case
  proof (cases "y \<in> set xs")
    case True
    from Cons.IH [OF l True] show ?thesis .
  next
    case False
    with Cons.prems(2) have "y = x" by simp
    with load_years_other [OF l False] x show ?thesis by simp
  qed
qed

lemma main_loop:
  assumes "list_years env d = Inr years" and "load_years env d Map.empty years = Inr ya"
  shows "main env d = year_loop ya init_state years"
  using assms by (simp add: main_def)

text \<open>Loading stops at the first year, in the order of the list, whose mosaic fails.\<close>

lemma load_years_first_error:
  "k < length ys \<Longrightarrow> mosaic_year_tiles env (os_path_join d (ys ! k)) = Inl e \<Longrightarrow>
   (\<And>i. i < k \<Longrightarrow> \<not> isl (mosaic_year_tiles env (os_path_join d (ys ! i)))) \<Longrightarrow>
   load_years env d m ys = Inl e"
proof (induction ys arbitrary: k m)
  case Nil
  then show ?case by simp
next
  case (Cons y ys)
  show ?case
  proof (cases k)
    case 0
    with Cons.prems(2) show ?thesis by simp
  next
    case (Suc n)
    from Cons.prems(3) [of 0] Suc obtain arr t where
      h: "mosaic_year_tiles env (os_path_join d y) = Inr (arr, t)"
      by (cases "mosaic_year_tiles env (os_path_join d y)") auto
    have "load_years env d (m(y \<mapsto> arr)) ys = Inl e"
    proof (rule Cons.IH [of n])
      show "n < length ys" using Cons.prems(1) Suc by simp
      show "mosaic_year_tiles env (os_path_join d (ys ! n)) = Inl e"
        using Cons.prems(2) Suc by simp
      show "\<not> isl (mosaic_year_tiles env (os_path_join d (ys ! i)))" if "i < n" for i
        using Cons.prems(3) [of "Suc i"] that Suc by simp
    qed
    with h show ?thesis by simp
  qed
qed

lemma load_years_total:
  "(\<And>y. y \<in> set ys \<Longrightarrow> \<not> isl (mosaic_year_tiles env (os_path_join d y))) \<Longrightarrow>
   \<exists>ya. load_years env d m ys = Inr ya"
proof (induction ys arbitrary: m)
  case Nil
  then show ?case by simp
next
  case (Cons y ys)
  from Cons.prems [of y] obtain arr t where
    h: "mosaic_year_tiles env (os_path_join d y) = Inr (arr, t)"
    by (cases "mosaic_year_tiles env (os_path_join d y)") auto
  have "\<exists>ya. load_years env d (m(y \<mapsto> arr)) ys = Inr ya"
    by (rule Cons.IH) (simp add: Cons.prems)
  with h show ?case by simp
qed

lemma lex_le_iff: "lex_le s t \<longleftrightarrow> s \<le> t"
  by (induction s t rule: lex_le.induct) (simp_all add: less_char_def)

lemma sorted_wrt_lex_le: "sorted_wrt lex_le xs = sorted xs"
proof -
  have "lex_le = (\<le>)"
    by (intro ext) (simp add: lex_le_iff)
  then show ?thesis by simp
qed


section \<open>The cumulative masks\<close>

text \<open>
  C2. In a run of the loop of \<^verbatim>\<open>main\<close>, take the states after two completed years, the
  second not before the first. Both masks exist in both states and keep their shape;
  every cell that is true in a mask after the earlier year is true in it after the later
  year; so the number of true cells of each mask does not decrease.
\<close>

theorem cumulative_monotone:
  assumes "year_loop year_arrays init_state years = (tr, r)" and "k \<le> n" and "n < length tr"
  shows "\<exists>gk lk gn ln. cumulative_gains (fst (tr ! k)) = Some gk
     \<and> cumulative_losses (fst (tr ! k)) = Some lk
     \<and> cumulative_gains (fst (tr ! n)) = Some gn
     \<and> cumulative_losses (fst (tr ! n)) = Some ln
     \<and> shape gn = shape gk \<and> shape ln = shape lk
     \<and> (\<forall>i j. cell gk i j \<longrightarrow> cell gn i j) \<and> (\<forall>i j. cell lk i j \<longrightarrow> cell ln i j)
     \<and> np_sum gk \<le> np_sum gn \<and> np_sum lk \<le> np_sum ln"
proof -
  from trace_mono [OF assms] obtain gk lk gn ln where
    m: "cumulative_gains (fst (tr ! k)) = Some gk" "cumulative_losses (fst (tr ! k)) = Some lk"
    "cumulative_gains (fst (tr ! n)) = Some gn" "cumulative_losses (fst (tr ! n)) = Some ln"
    and sh: "shape gn = shape gk" "shape ln = shape lk"
    and c: "\<And>i j. cell gk i j \<Longrightarrow> cell gn i j" "\<And>i j. cell lk i j \<Longrightarrow> cell ln i j"
    by blast
  have "np_sum gk \<le> np_sum gn" "np_sum lk \<le> np_sum ln"
    using sh c by (auto intro!: np_sum_mono)
  with m sh c show ?thesis
    by (rule_tac x = gk in exI, rule_tac x = lk in exI, rule_tac x = gn in exI,
        rule_tac x = ln in exI) auto
qed

theorem cumulative_monotone_witness:
  "3 < length (fst (year_loop flip_arrays init_state flip_years))
   \<and> (\<exists>gk lk gn ln.
        cumulative_gains (fst (fst (year_loop flip_arrays init_state flip_years) ! 1)) = Some gk
      \<and> cumulative_losses (fst (fst (year_loop flip_arrays init_state flip_years) ! 1)) = Some lk
      \<and> cumulative_gains (fst (fst (year_loop flip_arrays init_state flip_years) ! 3)) = Some gn
      \<and> cumulative_losses (fst (fst (year_loop flip_arrays init_state flip_years) ! 3)) = Some ln
      \<and> np_sum gk \<le> np_sum gn \<and> np_sum lk \<le> np_sum ln)"
proof -
  have h: "year_loop flip_arrays init_state flip_years =
      (fst (year_loop flip_arrays init_state flip_years),
       snd (year_loop flip_arrays init_state flip_years))"
    by simp
  have n: "3 < length (fst (year_loop flip_arrays init_state flip_years))"
    by code_simp
  from cumulative_monotone [OF h _ n, of 1] n show ?thesis
    by auto
qed

text \<open>
  C4. When the sorted year sequence is not empty and every year was mosaicked, the
  iteration of the first year completes, whatever its grid holds: both masks have the
  shape of the first mosaic and are false in every cell, the image is transparent in
  every cell, and both areas are exactly zero.
\<close>

theorem first_year_zero:
  assumes "list_years env data_dir = Inr (y # ys)"
    and "load_years env data_dir Map.empty (y # ys) = Inr year_arrays"
  shows "\<exists>a s f tr r g l. year_arrays y = Some a \<and> main env data_dir = ((s, f) # tr, r)
     \<and> cumulative_gains s = Some g \<and> cumulative_losses s = Some l
     \<and> shape g = shape a \<and> shape l = shape a
     \<and> (\<forall>i j. \<not> cell g i j) \<and> (\<forall>i j. \<not> cell l i j)
     \<and> np_sum g = 0 \<and> np_sum l = 0
     \<and> year f = y \<and> shape (rgba f) = shape a \<and> (\<forall>i j. cell (rgba f) i j = transparent)
     \<and> total_gains_area f = 0 \<and> total_losses_area f = 0"
proof -
  from load_years_lookup [OF assms(2), of y] obtain a where a: "year_arrays y = Some a"
    by auto
  from loop_body_first_total [of year_arrays y a, OF a] obtain s f where
    b: "loop_body year_arrays init_state y = Inr (s, f)"
    by blast
  obtain tr r where t: "year_loop year_arrays s ys = (tr, r)"
    by (cases "year_loop year_arrays s ys")
  have m: "main env data_dir = ((s, f) # tr, r)"
    using b t by (simp add: main_loop [OF assms])
  from loop_body_first [OF b] a have z:
    "cumulative_gains s = Some (np_zeros_like a)" "cumulative_losses s = Some (np_zeros_like a)"
    by (simp_all add: init_state_def)
  from loop_bodyD [OF b] a z have fr: "year f = y" "shape (rgba f) = shape a"
    "\<And>i j. cell (rgba f) i j = transparent"
    "total_gains_area f = 0" "total_losses_area f = 0"
    by auto
  show ?thesis
    using a m z fr
    by (rule_tac x = a in exI, rule_tac x = s in exI, rule_tac x = f in exI,
        rule_tac x = tr in exI, rule_tac x = r in exI,
        rule_tac x = "np_zeros_like a" in exI, rule_tac x = "np_zeros_like a" in exI)
      (simp add: shape_def)
qed

theorem first_year_zero_witness:
  "list_years demo_env ''data'' = Inr [''2000'', ''2001'', ''2002'']
   \<and> isl (load_years demo_env ''data'' Map.empty [''2000'', ''2001'', ''2002'']) = False
   \<and> (\<exists>s f tr r. main demo_env ''data'' = ((s, f) # tr, r) \<and> year f = ''2000''
        \<and> total_gains_area f = 0 \<and> total_losses_area f = 0)"
proof -
  have y: "list_years demo_env ''data'' = Inr [''2000'', ''2001'', ''2002'']"
    by code_simp
  have i: "isl (load_years demo_env ''data'' Map.empty [''2000'', ''2001'', ''2002'']) = False"
    by (simp add: mosaic_year_tiles_def path_defs demo_env_def merge_first_def)
  then obtain ya where
    l: "load_years demo_env ''data'' Map.empty [''2000'', ''2001'', ''2002''] = Inr ya"
    by (cases "load_years demo_env ''data'' Map.empty [''2000'', ''2001'', ''2002'']") auto
  from first_year_zero [OF y l] y i show ?thesis
    by blast
qed

text \<open>
  C8. The three years 2000, 2001 and 2002 with the grids of the scenario, in sorted
  order: the run completes, the gain mask has 0, 1 and 3 true cells after the three
  years, and the loss mask has none after every year.
\<close>

theorem three_year_scenario:
  "sort [''2002'', ''2000'', ''2001''] = [''2000'', ''2001'', ''2002'']
   \<and> snd (year_loop [''2000'' \<mapsto> of_rows [[0, 0], [0, 0]], ''2001'' \<mapsto> of_rows [[1, 0], [0, 0]],
              ''2002'' \<mapsto> of_rows [[1, 0], [1, 1]]]
     init_state (sort [''2002'', ''2000'', ''2001''])) = None
   \<and> map (\<lambda>(s, f). (year f, map_option np_sum (cumulative_gains s),
                          map_option np_sum (cumulative_losses s)))
       (fst (year_loop [''2000'' \<mapsto> of_rows [[0, 0], [0, 0]], ''2001'' \<mapsto> of_rows [[1, 0], [0, 0]],
              ''2002'' \<mapsto> of_rows [[1, 0], [1, 1]]]
          init_state (sort [''2002'', ''2000'', ''2001''])))
     = [(''2000'', Some 0, Some 0), (''2001'', Some 1, Some 0), (''2002'', Some 3, Some 0)]"
  by code_simp

section \<open>Rendering\<close>

text \<open>
  C6. In the frame of every completed year: a cell of the loss mask is red, also when
  it is in the gain mask; another cell of the gain mask is yellow; every other cell is
  transparent. Red and yellow differ and have alpha 255, transparent has alpha 0. In
  particular a cell that is 0 in one year, 1 in the next (gained) and 0 in the year
  after (lost) is in both masks and red in the frame of that last year and of every
  later year.
\<close>

theorem render_precedence:
  assumes "year_loop year_arrays init_state years = (tr, r)" and "m < length tr"
  shows "\<exists>g l. cumulative_gains (fst (tr ! m)) = Some g \<and> cumulative_losses (fst (tr ! m)) = Some l
     \<and> shape (rgba (snd (tr ! m))) = shape g \<and> shape l = shape g
     \<and> (\<forall>i j. cell (rgba (snd (tr ! m))) i j =
           (if cell l i j then red else if cell g i j then yellow else transparent))
     \<and> (\<forall>k Z A B i j.
           0 < k \<and> Suc k \<le> m
           \<and> year_arrays (years ! (k - 1)) = Some Z \<and> year_arrays (years ! k) = Some A
           \<and> year_arrays (years ! Suc k) = Some B
           \<and> i < nrows A \<and> j < ncols A
           \<and> cell Z i j = 0 \<and> cell A i j = 1 \<and> cell B i j = 0
           \<longrightarrow> cell g i j \<and> cell l i j \<and> cell (rgba (snd (tr ! m))) i j = red)
     \<and> red \<noteq> yellow
     \<and> snd (snd (snd red)) = 255 \<and> snd (snd (snd yellow)) = 255
     \<and> snd (snd (snd transparent)) = 0"
proof -
  from trace_frame [OF assms] obtain g l where
    gl: "cumulative_gains (fst (tr ! m)) = Some g" "cumulative_losses (fst (tr ! m)) = Some l"
    and sh: "shape (rgba (snd (tr ! m))) = shape g" "shape l = shape g"
    and px: "\<And>i j. cell (rgba (snd (tr ! m))) i j =
           (if cell l i j then red else if cell g i j then yellow else transparent)"
    by auto
  have sc: "cell g i j \<and> cell l i j"
    if k: "0 < k" "Suc k \<le> m"
      and Z: "year_arrays (years ! (k - 1)) = Some Z" and A: "year_arrays (years ! k) = Some A"
      and B: "year_arrays (years ! Suc k) = Some B"
      and ij: "i < nrows A" "j < ncols A"
      and v: "cell Z i j = 0" "cell A i j = 1" "cell B i j = 0"
    for k Z A B i j
  proof -
    from k assms(2) have lt: "Suc (k - 1) < length tr" "Suc k < length tr" "k < length tr"
      by simp_all
    from trace_frame [OF assms(1) lt(3)] A trace_frame [OF assms(1), of "k - 1"] Z lt k
    have "shape Z = shape A"
      using trace_running [OF assms(1), of k] trace_running [OF assms(1), of "k - 1"]
      by (auto simp: running_def)
    with ij have ijZ: "i < nrows Z" "j < ncols Z"
      by (simp_all add: shape_def)
    from trace_transition [OF assms(1) lt(1) Z _ ijZ] A k v obtain gk where
      gk: "cumulative_gains (fst (tr ! k)) = Some gk" "cell gk i j"
      by auto
    from trace_transition [OF assms(1) lt(2) A B ij] v obtain lk where
      lk: "cumulative_losses (fst (tr ! Suc k)) = Some lk" "cell lk i j"
      by auto
    from trace_mono [OF assms(1) _ assms(2), of k] k gk gl have "cell g i j"
      by auto
    moreover from trace_mono [OF assms(1) k(2) assms(2)] lk gl have "cell l i j"
      by auto
    ultimately show ?thesis by simp
  qed
  have col: "red \<noteq> yellow" "snd (snd (snd red)) = 255" "snd (snd (snd yellow)) = 255"
    "snd (snd (snd transparent)) = 0"
    by (simp_all add: red_def yellow_def transparent_def)
  show ?thesis
    using gl sh px sc col
    by (rule_tac x = g in exI, rule_tac x = l in exI) (simp, blast)
qed

theorem render_precedence_witness:
  "3 < length (fst (year_loop flip_arrays init_state flip_years))
   \<and> flip_arrays (flip_years ! 0) = Some (of_rows [[0, 1]])
   \<and> flip_arrays (flip_years ! 1) = Some (of_rows [[1, 1]])
   \<and> flip_arrays (flip_years ! 2) = Some (of_rows [[0, 0]])
   \<and> cell (rgba (snd (fst (year_loop flip_arrays init_state flip_years) ! 3))) 0 0 = red"
proof -
  have h: "year_loop flip_arrays init_state flip_years =
      (fst (year_loop flip_arrays init_state flip_years),
       snd (year_loop flip_arrays init_state flip_years))"
    by simp
  have n: "3 < length (fst (year_loop flip_arrays init_state flip_years))"
    by code_simp
  have a: "flip_arrays (flip_years ! 0) = Some (of_rows [[0, 1]])"
    "flip_arrays (flip_years ! 1) = Some (of_rows [[1, 1]])"
    "flip_arrays (flip_years ! 2) = Some (of_rows [[0, 0]])"
    by (simp_all add: flip_arrays_def flip_years_def)
  have c: "(0::nat) < nrows (of_rows [[1, 1 :: int]])" "(0::nat) < ncols (of_rows [[1, 1 :: int]])"
    "cell (of_rows [[0, 1 :: int]]) 0 0 = 0" "cell (of_rows [[1, 1 :: int]]) 0 0 = 1"
    "cell (of_rows [[0, 0 :: int]]) 0 0 = 0"
    by (simp_all add: of_rows_def)
  have p: "(0::nat) < 1 \<and> Suc 1 \<le> 3
           \<and> flip_arrays (flip_years ! (1 - 1)) = Some (of_rows [[0, 1]])
           \<and> flip_arrays (flip_years ! 1) = Some (of_rows [[1, 1]])
           \<and> flip_arrays (flip_years ! Suc 1) = Some (of_rows [[0, 0]])
           \<and> (0::nat) < nrows (of_rows [[1, 1 :: int]]) \<and> (0::nat) < ncols (of_rows [[1, 1 :: int]])
           \<and> cell (of_rows [[0, 1 :: int]]) 0 0 = 0 \<and> cell (of_rows [[1, 1 :: int]]) 0 0 = 1
           \<and> cell (of_rows [[0, 0 :: int]]) 0 0 = 0"
    using a c by (simp add: numeral_2_eq_2 [symmetric] del: One_nat_def)
  from render_precedence [OF h n] obtain g l :: "bool ndarray" where
    sc: "\<forall>k Z A B i j.
           0 < k \<and> Suc k \<le> 3
           \<and> flip_arrays (flip_years ! (k - 1)) = Some Z \<and> flip_arrays (flip_years ! k) = Some A
           \<and> flip_arrays (flip_years ! Suc k) = Some B
           \<and> i < nrows A \<and> j < ncols A
           \<and> cell Z i j = 0 \<and> cell A i j = 1 \<and> cell B i j = 0
           \<longrightarrow> cell g i j \<and> cell l i j
             \<and> cell (rgba (snd (fst (year_loop flip_arrays init_state flip_years) ! 3))) i j = red"
    by (elim exE conjE) (rule that)
  from sc [rule_format, OF p]
  have "cell (rgba (snd (fst (year_loop flip_arrays init_state flip_years) ! 3))) 0 0 = red"
    by (elim conjE)
  with n a show ?thesis by (intro conjI)
qed

section \<open>The year sequence\<close>

text \<open>
  C10. When the root directory can be listed, the years are the entries that are
  directories, each as often as it is listed, with no test on the name, in the
  lexicographic order of strings (so \<^verbatim>\<open>10\<close> comes before \<^verbatim>\<open>9\<close>). The years are
  mosaicked in that order before any frame is rendered: when the mosaic of a year fails
  and those of the years before it in the order do not, the run ends with the error of
  that year and without a frame; when no mosaic fails, the run is the loop over the
  years with the mosaic of each year. In every run the frames are those of the first
  years, one each and in that order, and the grid of each iteration is the mosaic of
  the directory of its year; a run that completes has a frame for every year.
\<close>

theorem years_in_order:
  assumes "os_listdir env data_dir = Inr ds"
  shows "\<exists>years. list_years env data_dir = Inr years
     \<and> mset years = mset (filter (\<lambda>d. os_path_isdir env (os_path_join data_dir d)) ds)
     \<and> set years = {d \<in> set ds. os_path_isdir env (os_path_join data_dir d)}
     \<and> sorted_wrt lex_le years
     \<and> (\<forall>k e. k < length years
           \<and> mosaic_year_tiles env (os_path_join data_dir (years ! k)) = Inl e
           \<and> (\<forall>i < k. \<not> isl (mosaic_year_tiles env (os_path_join data_dir (years ! i))))
           \<longrightarrow> main env data_dir = ([], Some e))
     \<and> ((\<forall>y \<in> set years. \<not> isl (mosaic_year_tiles env (os_path_join data_dir y)))
           \<longrightarrow> (\<exists>ya. main env data_dir = year_loop ya init_state years
                  \<and> (\<forall>y \<in> set years. \<exists>a t. ya y = Some a
                        \<and> mosaic_year_tiles env (os_path_join data_dir y) = Inr (a, t))))
     \<and> (\<forall>tr r. main env data_dir = (tr, r) \<longrightarrow>
           map (\<lambda>(s, f). year f) tr = take (length tr) years
           \<and> (r = None \<longrightarrow> length tr = length years)
           \<and> (\<forall>k < length tr. \<exists>a t.
                 mosaic_year_tiles env (os_path_join data_dir (years ! k)) = Inr (a, t)
                 \<and> previous_arr (fst (tr ! k)) = Some a)
           \<and> (tr \<noteq> [] \<or> r = None \<longrightarrow>
                 (\<forall>y \<in> set years. \<not> isl (mosaic_year_tiles env (os_path_join data_dir y)))))"
proof -
  define years where "years = sort (filter (\<lambda>d. os_path_isdir env (os_path_join data_dir d)) ds)"
  have ly: "list_years env data_dir = Inr years"
    using assms by (simp add: list_years_def years_def)
  have ms: "mset years = mset (filter (\<lambda>d. os_path_isdir env (os_path_join data_dir d)) ds)"
    by (simp add: years_def)
  have st: "set years = {d \<in> set ds. os_path_isdir env (os_path_join data_dir d)}"
    by (auto simp: years_def)
  have so: "sorted_wrt lex_le years"
    by (simp add: sorted_wrt_lex_le years_def)
  have fe: "main env data_dir = ([], Some e)"
    if "k < length years
        \<and> mosaic_year_tiles env (os_path_join data_dir (years ! k)) = Inl e
        \<and> (\<forall>i < k. \<not> isl (mosaic_year_tiles env (os_path_join data_dir (years ! i))))"
    for k e
  proof -
    from that have "load_years env data_dir Map.empty years = Inl e"
      by (intro load_years_first_error [of k]) simp_all
    with ly show ?thesis by (simp add: main_def)
  qed
  have ok: "\<exists>ya. main env data_dir = year_loop ya init_state years
                  \<and> (\<forall>y \<in> set years. \<exists>a t. ya y = Some a
                        \<and> mosaic_year_tiles env (os_path_join data_dir y) = Inr (a, t))"
    if "\<forall>y \<in> set years. \<not> isl (mosaic_year_tiles env (os_path_join data_dir y))"
  proof -
    from that load_years_total [of years env data_dir Map.empty] obtain ya where
      ld: "load_years env data_dir Map.empty years = Inr ya"
      by blast
    have "\<exists>a t. ya y = Some a \<and> mosaic_year_tiles env (os_path_join data_dir y) = Inr (a, t)"
      if "y \<in> set years" for y
      using load_years_lookup [OF ld that] .
    with main_loop [OF ly ld] show ?thesis by blast
  qed
  have run: "map (\<lambda>(s, f). year f) tr = take (length tr) years
           \<and> (r = None \<longrightarrow> length tr = length years)
           \<and> (\<forall>k < length tr. \<exists>a t.
                 mosaic_year_tiles env (os_path_join data_dir (years ! k)) = Inr (a, t)
                 \<and> previous_arr (fst (tr ! k)) = Some a)
           \<and> (tr \<noteq> [] \<or> r = None \<longrightarrow>
                 (\<forall>y \<in> set years. \<not> isl (mosaic_year_tiles env (os_path_join data_dir y))))"
    if m: "main env data_dir = (tr, r)" for tr r
  proof (cases "load_years env data_dir Map.empty years")
    case (Inl e)
    with m ly have "tr = []" "r = Some e"
      by (simp_all add: main_def)
    then show ?thesis by simp
  next
    case (Inr ya)
    from m have lp: "year_loop ya init_state years = (tr, r)"
      by (simp add: main_loop [OF ly Inr])
    from year_loop_length [OF lp] have len: "length tr \<le> length years"
      "r = None \<longrightarrow> length tr = length years"
      by simp_all
    have yr: "year (snd (tr ! k)) = years ! k" if "k < length tr" for k
      using trace_frame [OF lp that] by auto
    have mp: "map (\<lambda>(s, f). year f) tr = take (length tr) years"
      using len yr by (auto simp: list_eq_iff_nth_eq split_def)
    have mo: "\<exists>a t. mosaic_year_tiles env (os_path_join data_dir (years ! k)) = Inr (a, t)
                 \<and> previous_arr (fst (tr ! k)) = Some a" if k: "k < length tr" for k
    proof -
      from k len have "years ! k \<in> set years" by simp
      from load_years_lookup [OF Inr this] trace_frame [OF lp k] show ?thesis
        by auto
    qed
    have al: "\<not> isl (mosaic_year_tiles env (os_path_join data_dir y))" if "y \<in> set years" for y
      using load_years_lookup [OF Inr that] by auto
    from mp len mo al show ?thesis by blast
  qed
  show ?thesis
    using ly ms st so fe ok run by (rule_tac x = years in exI) blast
qed

theorem years_in_order_witness:
  "os_listdir demo_env ''eras'' = Inr [''9'', ''10'']
   \<and> list_years demo_env ''eras'' = Inr [''10'', ''9'']
   \<and> snd (main demo_env ''eras'') = None
   \<and> map (\<lambda>(s, f). year f) (fst (main demo_env ''eras'')) = [''10'', ''9'']
   \<and> os_listdir demo_env ''misc'' = Inr [''scans'', ''empty'']
   \<and> list_years demo_env ''misc'' = Inr [''empty'', ''scans'']
   \<and> mosaic_year_tiles demo_env ''misc/empty'' =
       Inl (FileNotFoundError ''No .tif files found in misc/empty'')
   \<and> mosaic_year_tiles demo_env ''misc/scans'' =
       Inl (FileNotFoundError ''No .tif files found in misc/scans'')
   \<and> main demo_env ''misc'' = ([], Some (FileNotFoundError ''No .tif files found in misc/empty''))"
proof -
  have l: "os_listdir demo_env ''eras'' = Inr [''9'', ''10'']"
    by (simp add: demo_env_def)
  have y: "list_years demo_env ''eras'' = Inr [''10'', ''9'']"
    by code_simp
  have n: "snd (main demo_env ''eras'') = None"
    by code_simp
  then have m: "main demo_env ''eras'' = (fst (main demo_env ''eras''), None)"
    by (metis prod.collapse)
  from years_in_order [OF l] y obtain
    r: "\<forall>tr r. main demo_env ''eras'' = (tr, r) \<longrightarrow>
           map (\<lambda>(s, f). year f) tr = take (length tr) [''10'', ''9'']
           \<and> (r = None \<longrightarrow> length tr = length [''10'', ''9''])"
    by auto
  from r [rule_format, OF m]
  have e: "map (\<lambda>(s, f). year f) (fst (main demo_env ''eras'')) = [''10'', ''9'']"
    by simp
  have l2: "os_listdir demo_env ''misc'' = Inr [''scans'', ''empty'']"
    by (simp add: demo_env_def)
  have y2: "list_years demo_env ''misc'' = Inr [''empty'', ''scans'']"
    by code_simp
  have f1: "mosaic_year_tiles demo_env (os_path_join ''misc'' ([''empty'', ''scans''] ! 0)) =
       Inl (FileNotFoundError ''No .tif files found in misc/empty'')"
    by (simp add: mosaic_year_tiles_def path_defs demo_env_def)
  have f2: "mosaic_year_tiles demo_env ''misc/scans'' =
       Inl (FileNotFoundError ''No .tif files found in misc/scans'')"
    by (simp add: mosaic_year_tiles_def path_defs demo_env_def)
  from years_in_order [OF l2] y2 obtain
    fe: "\<forall>k e. k < length [''empty'', ''scans'']
           \<and> mosaic_year_tiles demo_env (os_path_join ''misc'' ([''empty'', ''scans''] ! k)) = Inl e
           \<and> (\<forall>i < k. \<not> isl (mosaic_year_tiles demo_env
                 (os_path_join ''misc'' ([''empty'', ''scans''] ! i))))
           \<longrightarrow> main demo_env ''misc'' = ([], Some e)"
    by auto
  from fe [rule_format, of 0] f1
  have m2: "main demo_env ''misc'' =
      ([], Some (FileNotFoundError ''No .tif files found in misc/empty''))"
    by simp
  from f1 have f1': "mosaic_year_tiles demo_env ''misc/empty'' =
       Inl (FileNotFoundError ''No .tif files found in misc/empty'')"
    by (simp add: os_path_join_def sep_def)
  from l y n e l2 y2 f1' f2 m2 show ?thesis
    by (intro conjI)
qed

end
